theory Spec2Isabelle
  imports Main Complex_Main "HOL-Library.Monad_Syntax"
begin

section \<open>PeatlandSpatial: the peat depth point sampler\<close>

text \<open>
  A shallow embedding of \<^verbatim>\<open>PeatDepthPoints.processAlgorithm\<close>
  (\<^verbatim>\<open>processing/algs/peat_point_processing.py\<close>) and of the reprojection loop of
  \<^verbatim>\<open>PeatlandCodeAssessmentBase.processAlgorithm\<close>
  (\<^verbatim>\<open>processing/algs/peatland_code_processing.py\<close>).

  Python integers are \<^typ>\<open>int\<close>; Python's \<^verbatim>\<open>%\<close> takes the sign of the divisor,
  as \<open>mod\<close> on \<^typ>\<open>int\<close> does. The coordinates of a bounding box are Python floats,
  read here as the real numbers they denote. Exceptions are values of \<open>error\<close>;
  a \<^verbatim>\<open>while\<close> loop is a function into \<open>option\<close>, where \<open>None\<close> stands for a
  loop that never ends.
\<close>

subsection \<open>Data of the host application\<close>

text \<open>\<^verbatim>\<open>QgsRectangle\<close>: the four bounds of \<^verbatim>\<open>geom.boundingBox()\<close>.\<close>

record QgsRectangle =
  xMinimum :: real
  yMinimum :: real
  xMaximum :: real
  yMaximum :: real

text \<open>
  \<^verbatim>\<open>QgsGeometry\<close> belongs to the host application. The algorithm observes a polygon
  through two calls only: \<^verbatim>\<open>geom.boundingBox()\<close> and \<^verbatim>\<open>point.within(geom)\<close> for
  a point with integer coordinates. A geometry is modelled by these two observations;
  \<open>strictly_inside\<close> is the set of integer points strictly inside the polygon (the boundary
  does not belong to it).
\<close>

record QgsGeometry =
  boundingBox :: QgsRectangle
  strictly_inside :: "int \<times> int \<Rightarrow> bool"

definition point_within :: "int \<times> int \<Rightarrow> QgsGeometry \<Rightarrow> bool" where
  "point_within point geom = strictly_inside geom point"

text \<open>
  A vector layer: the identifier of its reference system and the geometries of its
  features, in the order \<^verbatim>\<open>getFeatures()\<close> yields them.
\<close>

record QgsVectorLayer =
  layer_crs :: string
  getFeatures :: "QgsGeometry list"

text \<open>
  A \<^verbatim>\<open>QgsCoordinateReferenceSystem\<close> as a Python object: \<open>obj_id\<close> is the identity of
  the object (what \<^verbatim>\<open>is\<close> and \<^verbatim>\<open>is not\<close> compare), \<open>authid\<close> its value.
  \<^verbatim>\<open>layer.crs()\<close>, \<^verbatim>\<open>layer.sourceCrs()\<close> and the constructor each hand out a new
  object; the store is the counter of the objects allocated so far.
\<close>

record QgsCoordinateReferenceSystem =
  obj_id :: nat
  authid :: string

definition new_crs :: "string \<Rightarrow> nat \<Rightarrow> QgsCoordinateReferenceSystem \<times> nat" where
  "new_crs a heap = (\<lparr>obj_id = heap, authid = a\<rparr>, Suc heap)"

definition crs :: "QgsVectorLayer \<Rightarrow> nat \<Rightarrow> QgsCoordinateReferenceSystem \<times> nat" where
  "crs layer heap = new_crs (layer_crs layer) heap"

definition sourceCrs :: "QgsVectorLayer \<Rightarrow> nat \<Rightarrow> QgsCoordinateReferenceSystem \<times> nat" where
  "sourceCrs layer heap = new_crs (layer_crs layer) heap"

definition is_not :: "QgsCoordinateReferenceSystem \<Rightarrow> QgsCoordinateReferenceSystem \<Rightarrow> bool" where
  "is_not a b = (obj_id a \<noteq> obj_id b)"

text \<open>The features written to the sink; the fields left unset by the algorithm are omitted.\<close>

record QgsFeature =
  record_id :: int
  easting :: int
  northing :: int
  spacing_attr :: int
  geometry :: "int \<times> int"

datatype message = invalidSourceError string | invalidSinkError string

datatype error =
    AttributeError
  | ZeroDivisionError
  | UnboundLocalError
  | QgsProcessingException message

subsection \<open>The grid sampler\<close>

text \<open>Python's \<^verbatim>\<open>int()\<close> on a float drops the fraction (it rounds toward zero).\<close>

definition py_int :: "real \<Rightarrow> int" where
  "py_int r = (if 0 \<le> r then \<lfloor>r\<rfloor> else \<lceil>r\<rceil>)"

text \<open>\<^verbatim>\<open>roundup = lambda a, b: a if a % b == 0 else a + b - a % b\<close>\<close>

definition roundup :: "int \<Rightarrow> int \<Rightarrow> error + int" where
  "roundup a b =
     (if b = 0 then Inl ZeroDivisionError
      else Inr (if a mod b = 0 then a else a + b - a mod b))"

text \<open>The state of a run: the counter \<^verbatim>\<open>count\<close> and the features added to the sink.\<close>

record run_state =
  count :: int
  sink :: "QgsFeature list"

text \<open>The body of \<^verbatim>\<open>if point.within(geom):\<close>, lines 279 to 290.\<close>

definition addFeature :: "int \<Rightarrow> int \<Rightarrow> run_state \<Rightarrow> run_state" where
  "addFeature x y st =
     (let feat = \<lparr>record_id = count st, easting = x, northing = y,
                  spacing_attr = (if x mod 100 = 0 \<and> y mod 100 = 0 then 100 else 50),
                  geometry = (x, y)\<rparr>
      in \<lparr>count = count st + 1, sink = sink st @ [feat]\<rparr>)"

text \<open>\<^verbatim>\<open>while x < end_x:\<close>, lines 273 to 292.\<close>

partial_function (option) inner_loop ::
  "QgsGeometry \<Rightarrow> int \<Rightarrow> int \<Rightarrow> int \<Rightarrow> int \<Rightarrow> run_state \<Rightarrow> run_state option" where
  "inner_loop geom spacing end_x y x st =
     (if x < end_x
      then inner_loop geom spacing end_x y (x + spacing)
             (if point_within (x, y) geom then addFeature x y st else st)
      else Some st)"

declare inner_loop.simps [code]

text \<open>\<^verbatim>\<open>while y < end_y:\<close>, lines 269 to 294.\<close>

partial_function (option) outer_loop ::
  "QgsGeometry \<Rightarrow> int \<Rightarrow> int \<Rightarrow> int \<Rightarrow> int \<Rightarrow> int \<Rightarrow> run_state \<Rightarrow> run_state option" where
  "outer_loop geom spacing start_x end_x end_y y st =
     (if y < end_y
      then do {
        st' \<leftarrow> inner_loop geom spacing end_x y start_x st;
        outer_loop geom spacing start_x end_x end_y (y + spacing) st'
      }
      else Some st)"

declare outer_loop.simps [code]

text \<open>The body of the \<^verbatim>\<open>for\<close> loop for one feature, lines 251 to 294.\<close>

definition process_feature ::
  "QgsGeometry \<Rightarrow> int \<Rightarrow> run_state \<Rightarrow> (error + run_state) option" where
  "process_feature geom spacing st =
     (let bbox = boundingBox geom;
          x_max = py_int (xMaximum bbox);
          y_max = py_int (yMaximum bbox);
          x_min = py_int (xMinimum bbox);
          y_min = py_int (yMinimum bbox)
      in case roundup x_min spacing of
           Inl e \<Rightarrow> Some (Inl e)
         | Inr start_x \<Rightarrow>
            (case roundup y_min spacing of
               Inl e \<Rightarrow> Some (Inl e)
             | Inr start_y \<Rightarrow>
                map_option Inr (outer_loop geom spacing start_x x_max y_max start_y st)))"

text \<open>
  The \<^verbatim>\<open>for\<close> loop over the features, lines 245 to 294. \<open>isCanceled current\<close> is
  the answer of \<^verbatim>\<open>feedback.isCanceled()\<close> when the feature with index \<open>current\<close>
  is reached; \<^verbatim>\<open>break\<close> leaves the loop with what was added so far.
\<close>

fun for_features ::
  "(nat \<Rightarrow> bool) \<Rightarrow> int \<Rightarrow> nat \<Rightarrow> QgsGeometry list \<Rightarrow> run_state
     \<Rightarrow> (error + run_state) option" where
  "for_features isCanceled spacing current [] st = Some (Inr st)"
| "for_features isCanceled spacing current (geom # features) st =
     (if isCanceled current then Some (Inr st)
      else case process_feature geom spacing st of
             None \<Rightarrow> None
           | Some (Inl e) \<Rightarrow> Some (Inl e)
           | Some (Inr st') \<Rightarrow> for_features isCanceled spacing (Suc current) features st')"

subsection \<open>The run\<close>

text \<open>
  What the host application answers during one run: the layer that
  \<^verbatim>\<open>parameterAsVectorLayer\<close> resolves \<^verbatim>\<open>INPUT\<close> to (or \<^verbatim>\<open>None\<close>), the value of
  \<^verbatim>\<open>GRID50\<close>, the identifier of the sink that \<^verbatim>\<open>parameterAsSink\<close> creates (or
  \<^verbatim>\<open>None\<close> for no sink), the layer that
  \<^verbatim>\<open>processing.run("qgis:reprojectlayer", ...)["OUTPUT"]\<close> returns for a layer, and the
  answers of \<^verbatim>\<open>feedback.isCanceled()\<close>.
\<close>

record host =
  parameterAsVectorLayer :: "QgsVectorLayer option"
  parameterAsBool :: bool
  parameterAsSink :: "string option"
  reprojectlayer :: "QgsVectorLayer \<Rightarrow> QgsVectorLayer option"
  isCanceled :: "nat \<Rightarrow> bool"

text \<open>The returned dictionary \<^verbatim>\<open>{self.OUTPUT: dest_id}\<close> and the features added to the sink.\<close>

record run_result =
  OUTPUT :: string
  added :: "QgsFeature list"

text \<open>\<^verbatim>\<open>generate_peat_layer\<close>: an empty point layer in EPSG:27700.\<close>

definition generate_peat_layer :: QgsVectorLayer where
  "generate_peat_layer = \<lparr>layer_crs = ''EPSG:27700'', getFeatures = []\<rparr>"

text \<open>
  Lines 219 to 314 of \<^verbatim>\<open>processAlgorithm\<close>: the sink, the loop over the features of
  \<^verbatim>\<open>source\<close> and the result. Line 300 reads \<^verbatim>\<open>current\<close> after the loop; with no
  feature the name was never bound and Python raises \<^verbatim>\<open>UnboundLocalError\<close>.
\<close>

definition sample_source :: "host \<Rightarrow> int \<Rightarrow> QgsVectorLayer \<Rightarrow> (error + run_result) option" where
  "sample_source h spacing source =
     (case parameterAsSink h of
        None \<Rightarrow> Some (Inl (QgsProcessingException (invalidSinkError ''OUTPUT'')))
      | Some dest_id \<Rightarrow>
          (let features = getFeatures source
           in case for_features (isCanceled h) spacing 0 features \<lparr>count = 1, sink = []\<rparr> of
                None \<Rightarrow> None
              | Some (Inl e) \<Rightarrow> Some (Inl e)
              | Some (Inr st) \<Rightarrow>
                  (case features of
                     [] \<Rightarrow> Some (Inl UnboundLocalError)
                   | _ # _ \<Rightarrow> Some (Inr \<lparr>OUTPUT = dest_id, added = sink st\<rparr>))))"

text \<open>
  \<^verbatim>\<open>processAlgorithm\<close> of \<^verbatim>\<open>PeatDepthPoints\<close>, lines 182 to 217, then
  \<open>sample_source\<close>. Line 191 calls \<^verbatim>\<open>source.sourceCrs()\<close> before line 214 tests
  \<^verbatim>\<open>source is None\<close>: on \<^verbatim>\<open>None\<close> the call raises \<^verbatim>\<open>AttributeError\<close>.
  \<open>heap\<close> is the number of Python objects allocated before the run.
\<close>

definition processAlgorithm :: "host \<Rightarrow> nat \<Rightarrow> (error + run_result) option" where
  "processAlgorithm h heap =
     (case parameterAsVectorLayer h of
        None \<Rightarrow> Some (Inl AttributeError)
      | Some source \<Rightarrow>
          (let grid50 = parameterAsBool h;
               peat_layer = generate_peat_layer;
               (peat_crs, heap1) = crs peat_layer heap;
               (source_crs, heap2) = sourceCrs source heap1;
               reprojected = (if is_not source_crs peat_crs then reprojectlayer h source
                              else Some source);
               spacing = (if grid50 = True then 50 else 100)
           in case reprojected of
                None \<Rightarrow> Some (Inl (QgsProcessingException (invalidSourceError ''INPUT'')))
              | Some source' \<Rightarrow> sample_source h spacing source'))"

text \<open>
  The loop over \<^verbatim>\<open>non_peatland_layers\<close> in \<^verbatim>\<open>PeatlandCodeAssessmentBase.processAlgorithm\<close>
  (\<^verbatim>\<open>peatland_code_processing.py\<close>, lines 177 to 186): each layer for which
  \<^verbatim>\<open>layer.crs() is not QgsCoordinateReferenceSystem(27700)\<close> is replaced by the output of
  \<^verbatim>\<open>qgis:reprojectlayer\<close>. The result is the list after the loop.
\<close>

fun non_peatland_loop ::
  "(QgsVectorLayer \<Rightarrow> QgsVectorLayer option) \<Rightarrow> QgsVectorLayer list \<Rightarrow> nat
     \<Rightarrow> QgsVectorLayer option list" where
  "non_peatland_loop reproject [] heap = []"
| "non_peatland_loop reproject (layer # layers) heap =
     (let (layer_crs_obj, heap1) = crs layer heap;
          (bng, heap2) = new_crs ''EPSG:27700'' heap1
      in (if is_not layer_crs_obj bng then reproject layer else Some layer)
         # non_peatland_loop reproject layers heap2)"

subsection \<open>Properties of an emitted feature\<close>

text \<open>
  \<open>tagged geom f\<close>: the feature \<open>f\<close> is what lines 279 to 288 build for a point inside
  \<open>geom\<close>. \<open>on_axis spacing start end v\<close>: the coordinate \<open>v\<close> is one of the values a
  loop variable takes between \<open>start\<close> and the exclusive bound \<open>end\<close>.
\<close>

definition tagged :: "QgsGeometry \<Rightarrow> QgsFeature \<Rightarrow> bool" where
  "tagged geom f =
     (point_within (easting f, northing f) geom
      \<and> spacing_attr f = (if easting f mod 100 = 0 \<and> northing f mod 100 = 0 then 100 else 50)
      \<and> geometry f = (easting f, northing f))"

definition on_axis :: "int \<Rightarrow> int \<Rightarrow> int \<Rightarrow> int \<Rightarrow> bool" where
  "on_axis spacing start end v = (start \<le> v \<and> v < end \<and> (v - start) mod spacing = 0)"

text \<open>
  \<open>sampled geom spacing f\<close>: the feature \<open>f\<close> is one that the two loops emit for the
  polygon \<open>geom\<close>, on the lattice of \<open>spacing\<close> and inside the truncated bounding box.
\<close>

definition sampled :: "QgsGeometry \<Rightarrow> int \<Rightarrow> QgsFeature \<Rightarrow> bool" where
  "sampled geom spacing f =
     (tagged geom f
      \<and> easting f mod spacing = 0 \<and> northing f mod spacing = 0
      \<and> py_int (xMinimum (boundingBox geom)) \<le> easting f
      \<and> easting f < py_int (xMaximum (boundingBox geom))
      \<and> py_int (yMinimum (boundingBox geom)) \<le> northing f
      \<and> northing f < py_int (yMaximum (boundingBox geom)))"

subsection \<open>Example inputs\<close>

text \<open>The square with corners (0,0) and (150,150); its sides are not part of its interior.\<close>

definition square_150 :: QgsGeometry where
  "square_150 =
     \<lparr>boundingBox = \<lparr>xMinimum = 0, yMinimum = 0, xMaximum = 150, yMaximum = 150\<rparr>,
      strictly_inside = (\<lambda>(x, y). 0 < x \<and> x < 150 \<and> 0 < y \<and> y < 150)\<rparr>"

text \<open>A rectangle off the lattice, with corners (-30.5, 110.2) and (260.9, 320).\<close>

definition rectangle_off_grid :: QgsGeometry where
  "rectangle_off_grid =
     \<lparr>boundingBox = \<lparr>xMinimum = - 30.5, yMinimum = 110.2, xMaximum = 260.9, yMaximum = 320\<rparr>,
      strictly_inside = (\<lambda>(x, y). - 30 \<le> x \<and> x \<le> 260 \<and> 111 \<le> y \<and> y < 320)\<rparr>"

text \<open>A polygon collapsed to the segment from (20,100) to (380,100): it has no interior.\<close>

definition segment_polygon :: QgsGeometry where
  "segment_polygon =
     \<lparr>boundingBox = \<lparr>xMinimum = 20, yMinimum = 100, xMaximum = 380, yMaximum = 100\<rparr>,
      strictly_inside = (\<lambda>p. False)\<rparr>"

definition layer_of :: "QgsGeometry list \<Rightarrow> QgsVectorLayer" where
  "layer_of geoms = \<lparr>layer_crs = ''EPSG:27700'', getFeatures = geoms\<rparr>"

text \<open>
  A host with the given features in EPSG:27700 and the given \<^verbatim>\<open>GRID50\<close>, whose
  reprojection returns the layer it is given, and which is never cancelled.
\<close>

definition host_of :: "QgsGeometry list \<Rightarrow> bool \<Rightarrow> host" where
  "host_of geoms grid50 =
     \<lparr>parameterAsVectorLayer = Some (layer_of geoms),
      parameterAsBool = grid50,
      parameterAsSink = Some ''peat_depth_points'',
      reprojectlayer = Some,
      isCanceled = (\<lambda>current. False)\<rparr>"

text \<open>The features that the runs on these inputs add to the sink, in order.\<close>

definition square_points_50 :: "QgsFeature list" where
  "square_points_50 =
     [\<lparr>record_id = 1, easting = 50, northing = 50, spacing_attr = 50, geometry = (50, 50)\<rparr>,
      \<lparr>record_id = 2, easting = 100, northing = 50, spacing_attr = 50, geometry = (100, 50)\<rparr>,
      \<lparr>record_id = 3, easting = 50, northing = 100, spacing_attr = 50, geometry = (50, 100)\<rparr>,
      \<lparr>record_id = 4, easting = 100, northing = 100, spacing_attr = 100, geometry = (100, 100)\<rparr>]"

definition two_polygons_points_100 :: "QgsFeature list" where
  "two_polygons_points_100 =
     [\<lparr>record_id = 1, easting = 100, northing = 100, spacing_attr = 100, geometry = (100, 100)\<rparr>,
      \<lparr>record_id = 2, easting = 0, northing = 200, spacing_attr = 100, geometry = (0, 200)\<rparr>,
      \<lparr>record_id = 3, easting = 100, northing = 200, spacing_attr = 100, geometry = (100, 200)\<rparr>,
      \<lparr>record_id = 4, easting = 200, northing = 200, spacing_attr = 100, geometry = (200, 200)\<rparr>,
      \<lparr>record_id = 5, easting = 0, northing = 300, spacing_attr = 100, geometry = (0, 300)\<rparr>,
      \<lparr>record_id = 6, easting = 100, northing = 300, spacing_attr = 100, geometry = (100, 300)\<rparr>,
      \<lparr>record_id = 7, easting = 200, northing = 300, spacing_attr = 100, geometry = (200, 300)\<rparr>]"

subsection \<open>Rounding up to a multiple\<close>

lemma multiple_above:
  fixes b r m :: int
  assumes "0 < b" "r mod b = 0" "m mod b = 0" "r - b < m"
  shows "r \<le> m"
proof -
  have "b dvd (m - r)"
    using assms(2,3) by (simp add: mod_eq_0_iff_dvd)
  then obtain k where k: "m - r = b * k" by (auto simp: dvd_def)
  have "b * (- 1) < b * k" using assms(4) k by simp
  then have "- 1 < k" using assms(1) by (simp only: mult_less_cancel_left_pos)
  then have "0 \<le> b * k" using assms(1) by simp
  then show ?thesis using k by simp
qed

lemma roundup_step_multiple:
  fixes a b :: int
  shows "(a + b - a mod b) mod b = 0"
proof -
  have "a + b - a mod b = b * (a div b + 1)"
    by (simp add: algebra_simps minus_mod_eq_mult_div)
  then show ?thesis by simp
qed

lemma roundup_Inr:
  "b \<noteq> 0 \<Longrightarrow> roundup a b = Inr (if a mod b = 0 then a else a + b - a mod b)"
  by (simp add: roundup_def)

lemma roundup_mod:
  "roundup a b = Inr r \<Longrightarrow> r mod b = 0"
  by (auto simp: roundup_def roundup_step_multiple split: if_splits)

text \<open>
  C4. For every integer value and every strictly positive spacing, \<open>roundup\<close> returns
  the value itself when it is a multiple of the spacing and
  \<open>value + spacing - value mod spacing\<close> otherwise; the result is the least multiple
  of the spacing that is greater than or equal to the value.
\<close>

theorem roundup_least_multiple:
  assumes "0 < b"
  shows "\<exists>r. roundup a b = Inr r
           \<and> r = (if a mod b = 0 then a else a + b - a mod b)
           \<and> r mod b = 0 \<and> a \<le> r
           \<and> (\<forall>m. m mod b = 0 \<and> a \<le> m \<longrightarrow> r \<le> m)"
proof -
  define r where "r = (if a mod b = 0 then a else a + b - a mod b)"
  have eq: "roundup a b = Inr r"
    using assms by (simp add: roundup_Inr r_def)
  have lt: "a mod b < b" and ge: "0 \<le> a mod b"
    using assms by simp_all
  have mult: "r mod b = 0"
    using eq by (rule roundup_mod)
  have le: "a \<le> r"
    using lt ge by (simp add: r_def)
  have least: "r \<le> m" if m: "m mod b = 0" "a \<le> m" for m
  proof -
    have "r - b < a"
    proof (cases "a mod b = 0")
      case True
      then show ?thesis using assms by (simp add: r_def)
    next
      case False
      with ge have "0 < a mod b" by linarith
      then show ?thesis using False by (simp add: r_def)
    qed
    then have "r - b < m" using m(2) by simp
    then show ?thesis
      using assms mult m(1) by (rule_tac multiple_above)
  qed
  show ?thesis
  proof (intro exI conjI allI impI)
    show "roundup a b = Inr r" by (rule eq)
    show "r = (if a mod b = 0 then a else a + b - a mod b)" by (rule r_def)
    show "r mod b = 0" by (rule mult)
    show "a \<le> r" by (rule le)
    show "r \<le> m" if "m mod b = 0 \<and> a \<le> m" for m
      using that by (simp add: least)
  qed
qed

theorem roundup_least_multiple_witness:
  "(0::int) < 50 \<and> roundup 120 50 = Inr 150 \<and> roundup 100 50 = Inr 100
     \<and> roundup (- 30) 50 = Inr 0"
  using roundup_least_multiple [of 50 120] by (simp add: roundup_def)

subsection \<open>The two loops\<close>

lemma on_axis_start: "a < e \<Longrightarrow> on_axis s a e a"
  by (simp add: on_axis_def)

lemma on_axis_shift:
  assumes "0 < s" "on_axis s (a + s) e v"
  shows "on_axis s a e v"
proof -
  have "(v - a) mod s = (v - (a + s) + s) mod s"
    by (simp add: algebra_simps)
  also have "\<dots> = 0"
    using assms(2) by (simp only: mod_add_self2 on_axis_def)
  finally show ?thesis
    using assms by (simp add: on_axis_def)
qed

lemma ids_Cons:
  "map record_id pts = [c + 1 .. c + 1 + int (length pts) - 1] \<Longrightarrow> record_id f = c
   \<Longrightarrow> map record_id (f # pts) = [c .. c + int (length (f # pts)) - 1]"
  by (simp add: upto_rec1 [of c] algebra_simps)

lemma upto_append_len:
  fixes c m n :: int
  assumes "0 \<le> m" "0 \<le> n"
  shows "[c .. c + m - 1] @ [c + m .. c + m + n - 1] = [c .. c + m + n - 1]"
proof (cases "n = 0")
  case True
  then show ?thesis by simp
next
  case False
  with assms have "c \<le> c + m" "c + m \<le> c + m + n - 1" by simp_all
  from upto_split1 [OF this] show ?thesis by simp
qed

lemma ids_append:
  assumes "map record_id ps = [c .. c + int (length ps) - 1]"
    and "map record_id qs = [c + int (length ps) .. c + int (length ps) + int (length qs) - 1]"
  shows "map record_id (ps @ qs) = [c .. c + int (length (ps @ qs)) - 1]"
proof -
  have "map record_id (ps @ qs)
          = [c .. c + int (length ps) - 1]
            @ [c + int (length ps) .. c + int (length ps) + int (length qs) - 1]"
    using assms by simp
  also have "\<dots> = [c .. c + int (length ps) + int (length qs) - 1]"
    by (rule upto_append_len) simp_all
  finally show ?thesis by (simp add: add.assoc)
qed

lemma inner_loop_emits:
  assumes "0 < spacing"
  shows "\<exists>pts. inner_loop geom spacing end_x y x st
             = Some \<lparr>count = count st + int (length pts), sink = sink st @ pts\<rparr>
          \<and> map record_id pts = [count st .. count st + int (length pts) - 1]
          \<and> (\<forall>f\<in>set pts. tagged geom f \<and> northing f = y \<and> on_axis spacing x end_x (easting f))"
proof (induction "nat (end_x - x)" arbitrary: x st rule: less_induct)
  case less
  show ?case
  proof (cases "x < end_x")
    case False
    then have "inner_loop geom spacing end_x y x st = Some st"
      by (subst inner_loop.simps) simp
    then show ?thesis
      by (intro exI[of _ "[]"]) simp
  next
    case True
    define st1 where "st1 = (if point_within (x, y) geom then addFeature x y st else st)"
    have step: "inner_loop geom spacing end_x y x st = inner_loop geom spacing end_x y (x + spacing) st1"
      using True by (subst inner_loop.simps) (simp add: st1_def)
    have "nat (end_x - (x + spacing)) < nat (end_x - x)"
      using True assms by simp
    from less[OF this, of st1] obtain pts where
      run: "inner_loop geom spacing end_x y (x + spacing) st1
             = Some \<lparr>count = count st1 + int (length pts), sink = sink st1 @ pts\<rparr>"
      and ids: "map record_id pts = [count st1 .. count st1 + int (length pts) - 1]"
      and props: "\<forall>f\<in>set pts. tagged geom f \<and> northing f = y \<and> on_axis spacing (x + spacing) end_x (easting f)"
      by blast
    have props': "\<forall>f\<in>set pts. tagged geom f \<and> northing f = y \<and> on_axis spacing x end_x (easting f)"
      using props on_axis_shift [OF assms] by blast
    show ?thesis
    proof (cases "point_within (x, y) geom")
      case False
      then have "st1 = st" by (simp add: st1_def)
      then show ?thesis using step run ids props' by auto
    next
      case inside: True
      define feat where "feat = \<lparr>record_id = count st, easting = x, northing = y,
                  spacing_attr = (if x mod 100 = 0 \<and> y mod 100 = 0 then 100 else 50),
                  geometry = (x, y)\<rparr>"
      have st1: "count st1 = count st + 1" "sink st1 = sink st @ [feat]"
        using inside by (simp_all add: st1_def addFeature_def feat_def)
      have r: "inner_loop geom spacing end_x y x st
           = Some \<lparr>count = count st + int (length (feat # pts)), sink = sink st @ (feat # pts)\<rparr>"
        using step run st1 by (simp add: algebra_simps)
      have i: "map record_id (feat # pts) = [count st .. count st + int (length (feat # pts)) - 1]"
        using ids st1(1) by (intro ids_Cons) (simp_all add: feat_def)
      have f: "tagged geom feat \<and> northing feat = y \<and> on_axis spacing x end_x (easting feat)"
        using inside True by (simp add: feat_def tagged_def on_axis_start)
      have "\<forall>f\<in>set (feat # pts). tagged geom f \<and> northing f = y \<and> on_axis spacing x end_x (easting f)"
        using f props' by simp
      with r i show ?thesis
        by blast
    qed
  qed
qed

lemma outer_loop_emits:
  assumes "0 < spacing"
  shows "\<exists>pts. outer_loop geom spacing start_x end_x end_y y st
             = Some \<lparr>count = count st + int (length pts), sink = sink st @ pts\<rparr>
          \<and> map record_id pts = [count st .. count st + int (length pts) - 1]
          \<and> (\<forall>f\<in>set pts. tagged geom f \<and> on_axis spacing start_x end_x (easting f)
                 \<and> on_axis spacing y end_y (northing f))"
proof (induction "nat (end_y - y)" arbitrary: y st rule: less_induct)
  case less
  show ?case
  proof (cases "y < end_y")
    case False
    then have "outer_loop geom spacing start_x end_x end_y y st = Some st"
      by (subst outer_loop.simps) simp
    then show ?thesis
      by (intro exI[of _ "[]"]) simp
  next
    case True
    from inner_loop_emits [OF assms, of geom end_x y start_x st] obtain row where
      row: "inner_loop geom spacing end_x y start_x st
             = Some \<lparr>count = count st + int (length row), sink = sink st @ row\<rparr>"
      and row_ids: "map record_id row = [count st .. count st + int (length row) - 1]"
      and row_props: "\<forall>f\<in>set row. tagged geom f \<and> northing f = y \<and> on_axis spacing start_x end_x (easting f)"
      by blast
    define st1 where "st1 = \<lparr>count = count st + int (length row), sink = sink st @ row\<rparr>"
    have step: "outer_loop geom spacing start_x end_x end_y y st
                 = outer_loop geom spacing start_x end_x end_y (y + spacing) st1"
      using True row by (subst outer_loop.simps) (simp add: st1_def)
    have "nat (end_y - (y + spacing)) < nat (end_y - y)"
      using True assms by simp
    from less[OF this, of st1] obtain pts where
      run: "outer_loop geom spacing start_x end_x end_y (y + spacing) st1
             = Some \<lparr>count = count st1 + int (length pts), sink = sink st1 @ pts\<rparr>"
      and ids: "map record_id pts = [count st1 .. count st1 + int (length pts) - 1]"
      and props: "\<forall>f\<in>set pts. tagged geom f \<and> on_axis spacing start_x end_x (easting f)
                 \<and> on_axis spacing (y + spacing) end_y (northing f)"
      by blast
    have r: "outer_loop geom spacing start_x end_x end_y y st
           = Some \<lparr>count = count st + int (length (row @ pts)), sink = sink st @ (row @ pts)\<rparr>"
      using step run by (simp add: st1_def algebra_simps)
    have i: "map record_id (row @ pts) = [count st .. count st + int (length (row @ pts)) - 1]"
      using row_ids ids by (intro ids_append) (simp_all add: st1_def)
    have "\<forall>f\<in>set row. tagged geom f \<and> on_axis spacing start_x end_x (easting f)
                 \<and> on_axis spacing y end_y (northing f)"
      using row_props True by (auto simp: on_axis_start)
    moreover have "\<forall>f\<in>set pts. tagged geom f \<and> on_axis spacing start_x end_x (easting f)
                 \<and> on_axis spacing y end_y (northing f)"
      using props on_axis_shift [OF assms] by blast
    ultimately have "\<forall>f\<in>set (row @ pts). tagged geom f \<and> on_axis spacing start_x end_x (easting f)
                 \<and> on_axis spacing y end_y (northing f)"
      by auto
    with r i show ?thesis
      by blast
  qed
qed

lemma on_axis_mod:
  assumes "start mod spacing = 0" "on_axis spacing start end v"
  shows "v mod spacing = 0"
proof -
  have "v mod spacing = ((v - start) + start) mod spacing" by simp
  also have "\<dots> = ((v - start) mod spacing + start mod spacing) mod spacing"
    by (simp only: mod_add_eq)
  also have "\<dots> = 0" using assms by (simp add: on_axis_def)
  finally show ?thesis .
qed

lemma roundup_ge:
  assumes "0 < b" "roundup a b = Inr r"
  shows "a \<le> r"
proof -
  have "a mod b < b" using assms(1) by simp
  moreover have "r = (if a mod b = 0 then a else a + b - a mod b)"
    using assms by (simp add: roundup_def)
  ultimately show ?thesis by (simp split: if_splits)
qed

subsection \<open>One feature, all features, the run\<close>

lemma process_feature_emits:
  assumes "0 < spacing"
  shows "\<exists>pts. process_feature geom spacing st
             = Some (Inr \<lparr>count = count st + int (length pts), sink = sink st @ pts\<rparr>)
          \<and> map record_id pts = [count st .. count st + int (length pts) - 1]
          \<and> (\<forall>f\<in>set pts. sampled geom spacing f)"
proof -
  define x_min where "x_min = py_int (xMinimum (boundingBox geom))"
  define y_min where "y_min = py_int (yMinimum (boundingBox geom))"
  define x_max where "x_max = py_int (xMaximum (boundingBox geom))"
  define y_max where "y_max = py_int (yMaximum (boundingBox geom))"
  from assms obtain start_x where sx: "roundup x_min spacing = Inr start_x"
    by (simp add: roundup_def)
  from assms obtain start_y where sy: "roundup y_min spacing = Inr start_y"
    by (simp add: roundup_def)
  have pf: "process_feature geom spacing st
             = map_option Inr (outer_loop geom spacing start_x x_max y_max start_y st)"
    using sx sy by (simp add: process_feature_def Let_def x_min_def y_min_def x_max_def y_max_def)
  from outer_loop_emits [OF assms, of geom start_x x_max y_max start_y st] obtain pts where
    run: "outer_loop geom spacing start_x x_max y_max start_y st
             = Some \<lparr>count = count st + int (length pts), sink = sink st @ pts\<rparr>"
    and ids: "map record_id pts = [count st .. count st + int (length pts) - 1]"
    and props: "\<forall>f\<in>set pts. tagged geom f \<and> on_axis spacing start_x x_max (easting f)
                 \<and> on_axis spacing start_y y_max (northing f)"
    by blast
  have "sampled geom spacing f" if f: "f \<in> set pts" for f
  proof -
    from props f have t: "tagged geom f"
      and ax: "on_axis spacing start_x x_max (easting f)"
      and ay: "on_axis spacing start_y y_max (northing f)" by auto
    have "easting f mod spacing = 0"
      using roundup_mod [OF sx] ax by (rule on_axis_mod)
    moreover have "northing f mod spacing = 0"
      using roundup_mod [OF sy] ay by (rule on_axis_mod)
    moreover have "x_min \<le> easting f" "easting f < x_max"
      using roundup_ge [OF assms sx] ax by (simp_all add: on_axis_def)
    moreover have "y_min \<le> northing f" "northing f < y_max"
      using roundup_ge [OF assms sy] ay by (simp_all add: on_axis_def)
    ultimately show ?thesis
      using t by (simp add: sampled_def x_min_def y_min_def x_max_def y_max_def)
  qed
  with pf run ids show ?thesis by auto
qed

lemma for_features_emits:
  assumes "0 < spacing"
  shows "\<exists>pts. for_features canceled spacing current geoms st
             = Some (Inr \<lparr>count = count st + int (length pts), sink = sink st @ pts\<rparr>)
          \<and> map record_id pts = [count st .. count st + int (length pts) - 1]
          \<and> (\<forall>f\<in>set pts. \<exists>geom\<in>set geoms. sampled geom spacing f)"
proof (induction geoms arbitrary: current st)
  case Nil
  show ?case by (intro exI[of _ "[]"]) simp
next
  case (Cons geom geoms)
  show ?case
  proof (cases "canceled current")
    case True
    then show ?thesis by (intro exI[of _ "[]"]) simp
  next
    case False
    from process_feature_emits [OF assms, of geom st] obtain ps where
      ps: "process_feature geom spacing st
             = Some (Inr \<lparr>count = count st + int (length ps), sink = sink st @ ps\<rparr>)"
      and ps_ids: "map record_id ps = [count st .. count st + int (length ps) - 1]"
      and ps_props: "\<forall>f\<in>set ps. sampled geom spacing f"
      by blast
    define st1 where "st1 = \<lparr>count = count st + int (length ps), sink = sink st @ ps\<rparr>"
    from Cons.IH [of "Suc current" st1] obtain qs where
      qs: "for_features canceled spacing (Suc current) geoms st1
             = Some (Inr \<lparr>count = count st1 + int (length qs), sink = sink st1 @ qs\<rparr>)"
      and qs_ids: "map record_id qs = [count st1 .. count st1 + int (length qs) - 1]"
      and qs_props: "\<forall>f\<in>set qs. \<exists>geom\<in>set geoms. sampled geom spacing f"
      by blast
    have r: "for_features canceled spacing current (geom # geoms) st
           = Some (Inr \<lparr>count = count st + int (length (ps @ qs)), sink = sink st @ (ps @ qs)\<rparr>)"
      using False ps qs by (simp add: st1_def algebra_simps)
    have i: "map record_id (ps @ qs) = [count st .. count st + int (length (ps @ qs)) - 1]"
      using ps_ids qs_ids by (intro ids_append) (simp_all add: st1_def)
    have "\<forall>f\<in>set (ps @ qs). \<exists>g\<in>set (geom # geoms). sampled g spacing f"
      using ps_props qs_props by auto
    with r i show ?thesis by blast
  qed
qed

lemma sample_source_emits:
  assumes "0 < spacing" "sample_source h spacing source = Some (Inr res)"
  shows "map record_id (added res) = [1 .. int (length (added res))]
          \<and> (\<forall>f\<in>set (added res). \<exists>geom\<in>set (getFeatures source). sampled geom spacing f)"
proof -
  from for_features_emits [OF assms(1), of "isCanceled h" 0 "getFeatures source" "\<lparr>count = 1, sink = []\<rparr>"]
  obtain pts where
    run: "for_features (isCanceled h) spacing 0 (getFeatures source) \<lparr>count = 1, sink = []\<rparr>
             = Some (Inr \<lparr>count = 1 + int (length pts), sink = pts\<rparr>)"
    and ids: "map record_id pts = [1 .. 1 + int (length pts) - 1]"
    and props: "\<forall>f\<in>set pts. \<exists>geom\<in>set (getFeatures source). sampled geom spacing f"
    by auto
  have "added res = pts"
    using assms(2) run by (auto simp: sample_source_def split: option.splits list.splits)
  then show ?thesis using ids props by simp
qed

lemma is_not_fresh:
  "is_not (fst (sourceCrs source (snd (crs peat heap)))) (fst (crs peat heap))"
  by (simp add: is_not_def sourceCrs_def crs_def new_crs_def)

lemma processAlgorithm_Some:
  "processAlgorithm (h\<lparr>parameterAsVectorLayer := Some source\<rparr>) heap =
     (case reprojectlayer h source of
        None \<Rightarrow> Some (Inl (QgsProcessingException (invalidSourceError ''INPUT'')))
      | Some lyr \<Rightarrow> sample_source (h\<lparr>parameterAsVectorLayer := Some source\<rparr>) (if parameterAsBool h then 50 else 100) lyr)"
  by (simp add: processAlgorithm_def is_not_def sourceCrs_def crs_def new_crs_def)

lemma processAlgorithm_source:
  "parameterAsVectorLayer h = Some source \<Longrightarrow>
   processAlgorithm h heap =
     (case reprojectlayer h source of
        None \<Rightarrow> Some (Inl (QgsProcessingException (invalidSourceError ''INPUT'')))
      | Some lyr \<Rightarrow> sample_source h (if parameterAsBool h then 50 else 100) lyr)"
  by (simp add: processAlgorithm_def is_not_def sourceCrs_def crs_def new_crs_def)

lemma run_emits:
  assumes "processAlgorithm h heap = Some (Inr res)"
  shows "\<exists>source lyr. parameterAsVectorLayer h = Some source \<and> reprojectlayer h source = Some lyr
           \<and> map record_id (added res) = [1 .. int (length (added res))]
           \<and> (\<forall>f\<in>set (added res). \<exists>geom\<in>set (getFeatures lyr).
                  sampled geom (if parameterAsBool h then 50 else 100) f)"
proof -
  from assms obtain source where src: "parameterAsVectorLayer h = Some source"
    by (auto simp: processAlgorithm_def split: option.splits)
  from assms processAlgorithm_source [OF src, of heap] obtain lyr where
    lyr: "reprojectlayer h source = Some lyr"
    and run: "sample_source h (if parameterAsBool h then 50 else 100) lyr = Some (Inr res)"
    by (auto split: option.splits)
  have "0 < (if parameterAsBool h then 50 else 100 :: int)" by simp
  from sample_source_emits [OF this run] src lyr show ?thesis by blast
qed

lemma sample_source_returns:
  assumes "0 < spacing"
  shows "\<exists>r. sample_source h spacing source = Some r"
proof -
  from for_features_emits [OF assms, of "isCanceled h" 0 "getFeatures source" "\<lparr>count = 1, sink = []\<rparr>"]
  obtain st where "for_features (isCanceled h) spacing 0 (getFeatures source) \<lparr>count = 1, sink = []\<rparr>
             = Some (Inr st)" by blast
  then show ?thesis
    by (simp add: sample_source_def split: option.splits list.splits)
qed

lemma processAlgorithm_returns: "\<exists>r. processAlgorithm h heap = Some r"
proof (cases "parameterAsVectorLayer h")
  case None
  then show ?thesis by (simp add: processAlgorithm_def)
next
  case (Some source)
  have "0 < (if parameterAsBool h then 50 else 100 :: int)" by simp
  from sample_source_returns [OF this] processAlgorithm_source [OF Some, of heap]
  show ?thesis by (auto split: option.splits)
qed

subsection \<open>Runs on the example inputs\<close>

lemmas eval_defs = processAlgorithm_def sample_source_def host_of_def layer_of_def
  generate_peat_layer_def crs_def sourceCrs_def new_crs_def is_not_def
  process_feature_def py_int_def roundup_def outer_loop.simps inner_loop.simps
  point_within_def addFeature_def

lemma run_square_50:
  "processAlgorithm (host_of [square_150] True) 0
     = Some (Inr \<lparr>OUTPUT = ''peat_depth_points'', added = square_points_50\<rparr>)"
  by (simp add: eval_defs square_150_def square_points_50_def)

lemma run_two_polygons_100:
  "processAlgorithm (host_of [square_150, rectangle_off_grid] False) 0
     = Some (Inr \<lparr>OUTPUT = ''peat_depth_points'', added = two_polygons_points_100\<rparr>)"
  by (simp add: eval_defs square_150_def rectangle_off_grid_def two_polygons_points_100_def)

lemma non_peatland_loop_map:
  "non_peatland_loop reproject layers heap = map reproject layers"
  by (induction layers arbitrary: heap) (simp_all add: is_not_def crs_def new_crs_def)

subsection \<open>The claims of the specification\<close>

text \<open>
  C1. Every feature that a run adds to the sink lies strictly inside a polygon of the
  sampled layer (\<open>point_within\<close> holds, so a point on the boundary is never emitted),
  its point geometry is its (easting, northing), and both coordinates are multiples of the
  configured spacing: the lattice is anchored at the origin (0,0), not at the bounding
  box of the polygon.
\<close>

theorem emitted_inside_on_lattice:
  assumes "processAlgorithm h heap = Some (Inr res)"
  shows "\<exists>source lyr. parameterAsVectorLayer h = Some source
           \<and> reprojectlayer h source = Some lyr
           \<and> (\<forall>f\<in>set (added res).
                 (\<exists>geom\<in>set (getFeatures lyr). point_within (easting f, northing f) geom)
                 \<and> geometry f = (easting f, northing f)
                 \<and> easting f mod (if parameterAsBool h then 50 else 100) = 0
                 \<and> northing f mod (if parameterAsBool h then 50 else 100) = 0)"
proof -
  from run_emits [OF assms] obtain source lyr where
    src: "parameterAsVectorLayer h = Some source" "reprojectlayer h source = Some lyr"
    and props: "\<forall>f\<in>set (added res). \<exists>geom\<in>set (getFeatures lyr).
                  sampled geom (if parameterAsBool h then 50 else 100) f"
    by blast
  have "(\<exists>geom\<in>set (getFeatures lyr). point_within (easting f, northing f) geom)
          \<and> geometry f = (easting f, northing f)
          \<and> easting f mod (if parameterAsBool h then 50 else 100) = 0
          \<and> northing f mod (if parameterAsBool h then 50 else 100) = 0"
    if "f \<in> set (added res)" for f
  proof -
    from props that obtain geom where
      g: "geom \<in> set (getFeatures lyr)"
      and s: "sampled geom (if parameterAsBool h then 50 else 100) f"
      by blast
    from s have "point_within (easting f, northing f) geom"
      and "geometry f = (easting f, northing f)"
      and "easting f mod (if parameterAsBool h then 50 else 100) = 0"
      and "northing f mod (if parameterAsBool h then 50 else 100) = 0"
      by (simp_all add: sampled_def tagged_def)
    with g show ?thesis by blast
  qed
  with src show ?thesis by blast
qed

theorem emitted_inside_on_lattice_witness:
  "processAlgorithm (host_of [square_150, rectangle_off_grid] False) 0
     = Some (Inr \<lparr>OUTPUT = ''peat_depth_points'', added = two_polygons_points_100\<rparr>)
   \<and> point_within (0, 200) rectangle_off_grid
   \<and> \<not> point_within (0, 200) square_150
   \<and> (0::int) mod 100 = 0 \<and> (200::int) mod 100 = 0"
  using emitted_inside_on_lattice [OF run_two_polygons_100] run_two_polygons_100
  by (simp add: point_within_def rectangle_off_grid_def square_150_def)

text \<open>
  C2. For every feature that a run adds to the sink, the attribute \<open>spacing\<close> is 100
  exactly when easting and northing are both multiples of 100, and otherwise it is the
  configured spacing of the run; this holds for both values of \<^verbatim>\<open>GRID50\<close>.
\<close>

theorem spacing_classification:
  assumes "processAlgorithm h heap = Some (Inr res)"
  shows "\<forall>f\<in>set (added res).
           (spacing_attr f = 100 \<longleftrightarrow> easting f mod 100 = 0 \<and> northing f mod 100 = 0)
           \<and> (spacing_attr f \<noteq> 100 \<longrightarrow> spacing_attr f = (if parameterAsBool h then 50 else 100))"
proof
  fix f assume f: "f \<in> set (added res)"
  from run_emits [OF assms] f obtain geom where
    s: "sampled geom (if parameterAsBool h then 50 else 100) f"
    by blast
  then have tag: "spacing_attr f = (if easting f mod 100 = 0 \<and> northing f mod 100 = 0 then 100 else 50)"
    by (simp add: sampled_def tagged_def)
  show "(spacing_attr f = 100 \<longleftrightarrow> easting f mod 100 = 0 \<and> northing f mod 100 = 0)
           \<and> (spacing_attr f \<noteq> 100 \<longrightarrow> spacing_attr f = (if parameterAsBool h then 50 else 100))"
  proof (cases "parameterAsBool h")
    case True
    then show ?thesis using tag by simp
  next
    case False
    with s have "easting f mod 100 = 0" "northing f mod 100 = 0"
      by (simp_all add: sampled_def)
    then show ?thesis using tag by simp
  qed
qed

theorem spacing_classification_witness:
  "processAlgorithm (host_of [square_150] True) 0
     = Some (Inr \<lparr>OUTPUT = ''peat_depth_points'', added = square_points_50\<rparr>)
   \<and> map spacing_attr square_points_50 = [50, 50, 50, 100]
   \<and> map easting square_points_50 = [50, 100, 50, 100]
   \<and> map northing square_points_50 = [50, 50, 100, 100]"
  using spacing_classification [OF run_square_50] run_square_50
  by (simp add: square_points_50_def)

text \<open>
  C5. Every feature that a run adds to the sink comes from a polygon of the sampled layer
  whose truncated bounding box maximum is strictly above it on both axes: no emitted
  point has its easting equal to the truncated \<open>xMaximum\<close> or its northing equal to the
  truncated \<open>yMaximum\<close> of its polygon.
\<close>

theorem exclusive_upper_bound:
  assumes "processAlgorithm h heap = Some (Inr res)"
  shows "\<exists>source lyr. parameterAsVectorLayer h = Some source
           \<and> reprojectlayer h source = Some lyr
           \<and> (\<forall>f\<in>set (added res). \<exists>geom\<in>set (getFeatures lyr).
                 point_within (easting f, northing f) geom
                 \<and> easting f < py_int (xMaximum (boundingBox geom))
                 \<and> northing f < py_int (yMaximum (boundingBox geom))
                 \<and> easting f \<noteq> py_int (xMaximum (boundingBox geom))
                 \<and> northing f \<noteq> py_int (yMaximum (boundingBox geom)))"
proof -
  from run_emits [OF assms] obtain source lyr where
    src: "parameterAsVectorLayer h = Some source" "reprojectlayer h source = Some lyr"
    and props: "\<forall>f\<in>set (added res). \<exists>geom\<in>set (getFeatures lyr).
                  sampled geom (if parameterAsBool h then 50 else 100) f"
    by blast
  have "\<exists>geom\<in>set (getFeatures lyr).
                 point_within (easting f, northing f) geom
                 \<and> easting f < py_int (xMaximum (boundingBox geom))
                 \<and> northing f < py_int (yMaximum (boundingBox geom))
                 \<and> easting f \<noteq> py_int (xMaximum (boundingBox geom))
                 \<and> northing f \<noteq> py_int (yMaximum (boundingBox geom))"
    if "f \<in> set (added res)" for f
  proof -
    from props that obtain geom where
      g: "geom \<in> set (getFeatures lyr)"
      and s: "sampled geom (if parameterAsBool h then 50 else 100) f"
      by blast
    from s have "point_within (easting f, northing f) geom"
      and "easting f < py_int (xMaximum (boundingBox geom))"
      and "northing f < py_int (yMaximum (boundingBox geom))"
      by (simp_all add: sampled_def tagged_def)
    with g show ?thesis by (intro bexI[of _ geom]) simp_all
  qed
  with src show ?thesis by blast
qed

theorem exclusive_upper_bound_witness:
  "processAlgorithm (host_of [square_150] True) 0
     = Some (Inr \<lparr>OUTPUT = ''peat_depth_points'', added = square_points_50\<rparr>)
   \<and> py_int (xMaximum (boundingBox square_150)) = 150
   \<and> py_int (yMaximum (boundingBox square_150)) = 150
   \<and> 150 \<notin> set (map easting square_points_50)
   \<and> 150 \<notin> set (map northing square_points_50)"
  using exclusive_upper_bound [OF run_square_50] run_square_50
  by (simp add: square_points_50_def square_150_def py_int_def)

text \<open>
  C6. The values of \<open>record_id\<close> that a run adds to the sink are 1, 2, 3, ... in order,
  with no gap and no repeat, over all the features of the layer: the counter is not
  reset between polygons.
\<close>

theorem record_id_sequence:
  assumes "processAlgorithm h heap = Some (Inr res)"
  shows "map record_id (added res) = [1 .. int (length (added res))]"
  using run_emits [OF assms] by blast

theorem record_id_sequence_witness:
  "processAlgorithm (host_of [square_150, rectangle_off_grid] False) 0
     = Some (Inr \<lparr>OUTPUT = ''peat_depth_points'', added = two_polygons_points_100\<rparr>)
   \<and> map record_id two_polygons_points_100 = [1, 2, 3, 4, 5, 6, 7]
   \<and> length two_polygons_points_100 = 7"
  using record_id_sequence [OF run_two_polygons_100] run_two_polygons_100
  by (simp add: two_polygons_points_100_def)

text \<open>
  C10. When \<^verbatim>\<open>GRID50\<close> is false (spacing 100), every feature that a run adds to the
  sink has both coordinates divisible by 100 and carries the tag 100: the branch that
  writes the literal 50 is never taken. The polygons of the host are arbitrary, and with
  them the set of candidates that pass \<open>point_within\<close>, so this holds for every
  candidate that the loops test.
\<close>

theorem spacing_100_never_tags_50:
  assumes "\<not> parameterAsBool h" "processAlgorithm h heap = Some (Inr res)"
  shows "\<forall>f\<in>set (added res).
           easting f mod 100 = 0 \<and> northing f mod 100 = 0
           \<and> spacing_attr f = 100 \<and> spacing_attr f \<noteq> 50"
proof
  fix f assume f: "f \<in> set (added res)"
  from run_emits [OF assms(2)] f assms(1) obtain geom where
    s: "sampled geom 100 f"
    by force
  then show "easting f mod 100 = 0 \<and> northing f mod 100 = 0
           \<and> spacing_attr f = 100 \<and> spacing_attr f \<noteq> 50"
    by (simp add: sampled_def tagged_def)
qed

theorem spacing_100_never_tags_50_witness:
  "\<not> parameterAsBool (host_of [square_150, rectangle_off_grid] False)
   \<and> processAlgorithm (host_of [square_150, rectangle_off_grid] False) 0
       = Some (Inr \<lparr>OUTPUT = ''peat_depth_points'', added = two_polygons_points_100\<rparr>)
   \<and> map spacing_attr two_polygons_points_100 = [100, 100, 100, 100, 100, 100, 100]"
  using spacing_100_never_tags_50 [OF _ run_two_polygons_100] run_two_polygons_100
  by (simp add: two_polygons_points_100_def host_of_def)

text \<open>
  C8. For every polygon and every strictly positive spacing the two loops end without
  an exception, and a polygon whose bounding box collapses to a line or a point, or
  that has no interior, adds no feature to the sink.
\<close>

theorem sampler_terminates:
  assumes "0 < spacing"
  shows "\<exists>pts. process_feature geom spacing st
             = Some (Inr \<lparr>count = count st + int (length pts), sink = sink st @ pts\<rparr>)
           \<and> (xMinimum (boundingBox geom) = xMaximum (boundingBox geom)
                \<or> yMinimum (boundingBox geom) = yMaximum (boundingBox geom)
                \<or> (\<forall>p. \<not> strictly_inside geom p)
              \<longrightarrow> pts = [])"
proof -
  from process_feature_emits [OF assms, of geom st] obtain pts where
    run: "process_feature geom spacing st
             = Some (Inr \<lparr>count = count st + int (length pts), sink = sink st @ pts\<rparr>)"
    and props: "\<forall>f\<in>set pts. sampled geom spacing f"
    by blast
  have "pts = []"
    if d: "xMinimum (boundingBox geom) = xMaximum (boundingBox geom)
                \<or> yMinimum (boundingBox geom) = yMaximum (boundingBox geom)
                \<or> (\<forall>p. \<not> strictly_inside geom p)"
  proof (rule ccontr)
    assume "pts \<noteq> []"
    then obtain f where "f \<in> set pts" by (cases pts) auto
    with props have s: "sampled geom spacing f" by blast
    then have "py_int (xMinimum (boundingBox geom)) < py_int (xMaximum (boundingBox geom))"
      and "py_int (yMinimum (boundingBox geom)) < py_int (yMaximum (boundingBox geom))"
      and "strictly_inside geom (easting f, northing f)"
      by (simp_all add: sampled_def tagged_def point_within_def)
    with d show False by auto
  qed
  with run show ?thesis by blast
qed

theorem sampler_terminates_witness:
  "(0::int) < 50
   \<and> yMinimum (boundingBox segment_polygon) = yMaximum (boundingBox segment_polygon)
   \<and> process_feature segment_polygon 50 \<lparr>count = 1, sink = []\<rparr>
       = Some (Inr \<lparr>count = 1, sink = []\<rparr>)"
  using sampler_terminates [of 50 segment_polygon "\<lparr>count = 1, sink = []\<rparr>"]
  by (auto simp: segment_polygon_def)

text \<open>
  C9. When \<^verbatim>\<open>parameterAsVectorLayer\<close> yields \<^verbatim>\<open>None\<close>, the run ends with
  \<^verbatim>\<open>AttributeError\<close> at line 191, before the test of line 214 that would raise the
  invalid source exception; no feature has been added to a sink.
\<close>

theorem None_source_AttributeError:
  "processAlgorithm (h\<lparr>parameterAsVectorLayer := None\<rparr>) heap = Some (Inl AttributeError)"
  by (simp add: processAlgorithm_def)

text \<open>
  C7. For a source layer that is already in EPSG:27700, the test \<^verbatim>\<open>is not\<close> of line
  194 compares two distinct objects and holds, so the run samples the layer that
  \<^verbatim>\<open>qgis:reprojectlayer\<close> returns and not the source itself; the loop over the
  non-peatland layers replaces every layer, whatever its reference system, by the output
  of the reprojection as well.
\<close>

theorem target_crs_still_reprojected:
  "is_not (fst (sourceCrs (source\<lparr>layer_crs := ''EPSG:27700''\<rparr>)
                  (snd (crs generate_peat_layer heap))))
          (fst (crs generate_peat_layer heap))
   \<and> processAlgorithm (h\<lparr>parameterAsVectorLayer := Some (source\<lparr>layer_crs := ''EPSG:27700''\<rparr>)\<rparr>) heap
       = (case reprojectlayer h (source\<lparr>layer_crs := ''EPSG:27700''\<rparr>) of
            None \<Rightarrow> Some (Inl (QgsProcessingException (invalidSourceError ''INPUT'')))
          | Some lyr \<Rightarrow>
              sample_source (h\<lparr>parameterAsVectorLayer := Some (source\<lparr>layer_crs := ''EPSG:27700''\<rparr>)\<rparr>)
                (if parameterAsBool h then 50 else 100) lyr)
   \<and> non_peatland_loop reproject layers heap = map reproject layers"
  by (simp add: processAlgorithm_Some non_peatland_loop_map
      is_not_def sourceCrs_def crs_def new_crs_def)

text \<open>
  C3. On the square with corners (0,0) and (150,150), with spacing 50 and the counter at 1,
  the sampler emits exactly the four points (50,50), (100,50), (50,100) and (100,100),
  numbered 1 to 4 in this order; (100,100) is tagged 100 and the three others 50.
\<close>

theorem square_150_spacing_50:
  "process_feature square_150 50 \<lparr>count = 1, sink = []\<rparr>
     = Some (Inr \<lparr>count = 5, sink =
         [\<lparr>record_id = 1, easting = 50, northing = 50, spacing_attr = 50, geometry = (50, 50)\<rparr>,
          \<lparr>record_id = 2, easting = 100, northing = 50, spacing_attr = 50, geometry = (100, 50)\<rparr>,
          \<lparr>record_id = 3, easting = 50, northing = 100, spacing_attr = 50, geometry = (50, 100)\<rparr>,
          \<lparr>record_id = 4, easting = 100, northing = 100, spacing_attr = 100,
            geometry = (100, 100)\<rparr>]\<rparr>)"
  by (simp add: process_feature_def py_int_def roundup_def outer_loop.simps inner_loop.simps
      point_within_def addFeature_def square_150_def)

theorem square_150_spacing_50_counterexample:
  "process_feature square_150 50 \<lparr>count = 1, sink = []\<rparr>
     \<noteq> Some (Inr \<lparr>count = 3, sink =
         [\<lparr>record_id = 1, easting = 50, northing = 50, spacing_attr = 50, geometry = (50, 50)\<rparr>,
          \<lparr>record_id = 2, easting = 100, northing = 100, spacing_attr = 100,
            geometry = (100, 100)\<rparr>]\<rparr>)"
  by (simp add: process_feature_def py_int_def roundup_def outer_loop.simps inner_loop.simps
      point_within_def addFeature_def square_150_def)

end
